theory Spec2Isabelle
  imports Main "HOL-Library.AList" "HOL-Library.Sublist"
begin

section \<open>Python values used by the models\<close>

text \<open>
  A Python \<open>dict\<close> keeps its keys in insertion order and has unique keys. It is
  modelled as an association list: \<open>map_of d k\<close> is \<open>d.get(k)\<close>,
  \<open>AList.update k v d\<close> is \<open>d[k] = v\<close> (an existing key keeps its position, a
  new key goes to the end) and \<open>AList.delete k d\<close> is \<open>del d[k]\<close> for a key
  that is present (and \<open>d.pop(k, None)\<close> in general).

  Python's \<open>s in t\<close> on strings is \<open>sublist s t\<close>: \<open>s\<close> occurs in \<open>t\<close>
  as a contiguous run of characters.
\<close>

type_synonym 'v dict = "(string \<times> 'v) list"

text \<open>
  Scalars are values; a \<open>list\<close> or a \<open>dict\<close> that is part of a document is
  an object with an identity, referred to by its address in the store (see the model of
  pyproject.py below). A \<open>dict\<close> that is still local to the function building it
  is written as the association list itself.
\<close>

datatype pyval = VNone | VBool bool | VInt int | VStr string | VRef nat

datatype pyerr =
    KeyError pyval
  | ValueError string
  | IndexError
  | TypeError
  | AttributeError

text \<open>\<open>sep.join(xs)\<close> of Python's \<open>str\<close>.\<close>

fun join :: "string \<Rightarrow> string list \<Rightarrow> string" where
  "join sep [] = []"
| "join sep [x] = x"
| "join sep (x # y # ys) = x @ sep @ join sep (y # ys)"

section \<open>uv.py: UvIndex\<close>

text \<open>
  Modelled from the spec: \<open>inject_url_credentials\<close> of \<open>kraken.std.util.url\<close> is
  imported by uv.py but is not among the sources. The specification says that the
  credentials are embedded into the location as userinfo, the secret (or the fixed
  placeholder standing for it) taking the password position. The userinfo of a URL
  sits right after the \<open>://\<close> that ends the scheme, as \<open>user:password@\<close>; a
  location without a scheme gets the userinfo in front.
\<close>

fun split_scheme :: "string \<Rightarrow> (string \<times> string) option" where
  "split_scheme [] = None"
| "split_scheme (c # cs) =
     (if prefix ''://'' (c # cs) then Some ([], drop 3 (c # cs))
      else (case split_scheme cs of
              None \<Rightarrow> None
            | Some (scheme, rest) \<Rightarrow> Some (c # scheme, rest)))"

definition inject_url_credentials :: "string \<Rightarrow> string \<Rightarrow> string \<Rightarrow> string" where
  "inject_url_credentials url username password =
     (case split_scheme url of
        Some (scheme, rest) \<Rightarrow> scheme @ ''://'' @ username @ '':'' @ password @ ''@'' @ rest
      | None \<Rightarrow> username @ '':'' @ password @ ''@'' @ url)"

text \<open>
  The dataclass \<open>UvIndex\<close>. The field \<open>default\<close> is called \<open>is_default\<close> here,
  \<open>default\<close> being a constant of HOL. \<open>name\<close> and \<open>credentials\<close> are
  \<open>None\<close> or a value, as in the source.
\<close>

record UvIndex =
  url :: string
  name :: "string option"
  is_default :: bool
  explicit :: bool
  credentials :: "(string \<times> string) option"

text \<open>
  \<open>if self.credentials:\<close> tests a pair or \<open>None\<close>; a pair is always true,
  also when both components are empty.
\<close>

definition safe_url :: "UvIndex \<Rightarrow> string" where
  "safe_url i =
     (case credentials i of
        Some (username, password) \<Rightarrow> inject_url_credentials (url i) username ''[MASKED]''
      | None \<Rightarrow> url i)"

definition unsafe_url :: "UvIndex \<Rightarrow> string" where
  "unsafe_url i =
     (case credentials i of
        Some (username, password) \<Rightarrow> inject_url_credentials (url i) username password
      | None \<Rightarrow> url i)"

section \<open>uv.py: UvIndexes\<close>

record UvIndexes =
  indexes :: "UvIndex list"

text \<open>
  Constructing the dataclass runs \<open>__post_init__\<close>, which raises \<open>ValueError\<close>
  when more than one index is flagged default. \<open>UvIndexes_init\<close> is the constructor
  call \<open>UvIndexes(xs)\<close>.
\<close>

definition UvIndexes_init :: "UvIndex list \<Rightarrow> pyerr + UvIndexes" where
  "UvIndexes_init xs =
     (if length (filter is_default xs) > 1
      then Inl (ValueError ''There can be only one default index.'')
      else Inr \<lparr>indexes = xs\<rparr>)"

text \<open>One iteration of the loop of \<open>to_config\<close>, building \<open>entry\<close>.\<close>

definition config_entry :: "UvIndex \<Rightarrow> pyval dict" where
  "config_entry i =
     (let entry = [];
          entry = (if name i \<noteq> None \<and> name i \<noteq> Some ''''
                   then AList.update ''name'' (VStr (the (name i))) entry else entry);
          entry = AList.update ''url'' (VStr (url i)) entry;
          entry = (if is_default i then AList.update ''default'' (VBool True) entry else entry);
          entry = (if explicit i then AList.update ''explicit'' (VBool True) entry else entry)
      in entry)"

fun to_config_loop :: "UvIndex list \<Rightarrow> pyval dict list \<Rightarrow> pyval dict list" where
  "to_config_loop [] entries = entries"
| "to_config_loop (i # is) entries = to_config_loop is (entries @ [config_entry i])"

definition to_config :: "UvIndexes \<Rightarrow> pyval dict list" where
  "to_config c = to_config_loop (indexes c) []"

text \<open>
  \<open>to_env\<close>: the loop carries the dictionary \<open>env\<close> and the list \<open>uv_indexes\<close>.
\<close>

definition env_token :: "UvIndex \<Rightarrow> string" where
  "env_token i =
     (if name i \<noteq> None \<and> name i \<noteq> Some '''' then the (name i) @ ''='' else '''')
       @ unsafe_url i"

fun to_env_loop :: "UvIndex list \<Rightarrow> string dict \<Rightarrow> string list \<Rightarrow> string dict \<times> string list" where
  "to_env_loop [] env uv_indexes = (env, uv_indexes)"
| "to_env_loop (i # is) env uv_indexes =
     (if is_default i
      then to_env_loop is (AList.update ''UV_DEFAULT_INDEX'' (unsafe_url i) env) uv_indexes
      else to_env_loop is env (uv_indexes @ [env_token i]))"

definition to_env :: "UvIndexes \<Rightarrow> string dict" where
  "to_env c =
     (case to_env_loop (indexes c) [] [] of
        (env, uv_indexes) \<Rightarrow>
          (if length uv_indexes \<noteq> 0
           then AList.update ''UV_INDEX'' (join '' '' uv_indexes) env
           else env))"

subsection \<open>Concrete collections used below\<close>

definition masked_entry :: UvIndex where
  "masked_entry = \<lparr>url = ''https://a/simple'', name = None, is_default = False,
     explicit = False, credentials = Some (''u'', ''hunter2'')\<rparr>"

definition placeholder_entry :: UvIndex where
  "placeholder_entry = \<lparr>url = ''https://a/simple'', name = None, is_default = False,
     explicit = False, credentials = Some (''u'', ''MASKED'')\<rparr>"

definition two_defaults :: "UvIndex list" where
  "two_defaults =
     [\<lparr>url = ''https://a/simple'', name = None, is_default = True, explicit = False,
        credentials = None\<rparr>,
      \<lparr>url = ''https://b/simple'', name = Some ''b'', is_default = True, explicit = False,
        credentials = None\<rparr>]"

definition named_default_entry :: UvIndex where
  "named_default_entry = \<lparr>url = ''https://a/simple'', name = Some ''internal'',
     is_default = True, explicit = False, credentials = Some (''u'', ''p'')\<rparr>"

definition env_example :: "UvIndex list" where
  "env_example =
     [\<lparr>url = ''https://a/simple'', name = None, is_default = True, explicit = False,
        credentials = Some (''u'', ''p'')\<rparr>,
      \<lparr>url = ''https://b/simple'', name = Some ''internal'', is_default = False, explicit = True,
        credentials = None\<rparr>,
      \<lparr>url = ''https://c/simple'', name = Some '''', is_default = False, explicit = False,
        credentials = None\<rparr>]"

section \<open>The object store\<close>

text \<open>
  The functions of pyproject.py and \<open>set_package_indexes\<close> of uv.py mutate the
  lists and dicts of a parsed document in place, and some of them work on a copy of a
  list that still shares its elements with the document. The store makes the identity
  of these objects explicit: an object lives at an address, the address is its position
  in the store, and a new object is put at the end. An object is never removed.

  An object is entered into the store when it becomes part of the document or is handed
  to the caller. The argument \<open>{}\<close> or \<open>[]\<close> of a \<open>setdefault\<close> or \<open>get\<close>
  that finds the key present is dropped by Python at once and is not entered.

  A reference to an address outside the store cannot arise in Python; the operations
  below treat it like a value without the attribute asked for.
\<close>

datatype pyobj = ODict "pyval dict" | OList "pyval list"

type_synonym store = "pyobj list"

definition lookup :: "store \<Rightarrow> nat \<Rightarrow> pyobj option" where
  "lookup h a = (if a < length h then Some (h ! a) else None)"

definition alloc :: "store \<Rightarrow> pyobj \<Rightarrow> pyval \<times> store" where
  "alloc h ob = (VRef (length h), h @ [ob])"

text \<open>
  \<open>d.setdefault(key, {})\<close> and \<open>d.setdefault(key, [])\<close>: \<open>dflt\<close> is the empty
  object to insert when the key is absent. Only a dict has the method.
\<close>

definition setdefault :: "store \<Rightarrow> pyval \<Rightarrow> string \<Rightarrow> pyobj \<Rightarrow> pyerr + pyval \<times> store" where
  "setdefault h d key dflt =
     (case d of
        VRef a \<Rightarrow>
          (case lookup h a of
             Some (ODict kvs) \<Rightarrow>
               (case map_of kvs key of
                  Some v \<Rightarrow> Inr (v, h)
                | None \<Rightarrow>
                    (case alloc h dflt of
                       (r, h1) \<Rightarrow> Inr (r, h1[a := ODict (AList.update key r kvs)])))
           | _ \<Rightarrow> Inl AttributeError)
      | _ \<Rightarrow> Inl AttributeError)"

text \<open>
  \<open>d.get(key, {})\<close>: the result \<open>None\<close> stands for the fresh empty dict given as
  default, which belongs to no document.
\<close>

definition dict_get :: "store \<Rightarrow> pyval \<Rightarrow> string \<Rightarrow> pyerr + pyval option" where
  "dict_get h d key =
     (case d of
        VRef a \<Rightarrow>
          (case lookup h a of
             Some (ODict kvs) \<Rightarrow> Inr (map_of kvs key)
           | _ \<Rightarrow> Inl AttributeError)
      | _ \<Rightarrow> Inl AttributeError)"


text \<open>
  Iterating over a value, as \<open>list(x)\<close>, \<open>enumerate(x)\<close> and a generator over
  \<open>x\<close> do: a list yields its elements, a dict its keys, a string its characters.
\<close>

definition iter_values :: "store \<Rightarrow> pyval \<Rightarrow> pyerr + pyval list" where
  "iter_values h x =
     (case x of
        VRef a \<Rightarrow>
          (case lookup h a of
             Some (OList xs) \<Rightarrow> Inr xs
           | Some (ODict kvs) \<Rightarrow> Inr (map (\<lambda>kv. VStr (fst kv)) kvs)
           | None \<Rightarrow> Inl TypeError)
      | VStr s \<Rightarrow> Inr (map (\<lambda>c. VStr [c]) s)
      | _ \<Rightarrow> Inl TypeError)"

text \<open>
  \<open>x[key]\<close> with a string key: a dict looks the key up, every other value raises
  \<open>TypeError\<close> (a list and a string want an integer index, the rest is not
  subscriptable).
\<close>

definition getitem :: "store \<Rightarrow> pyval \<Rightarrow> string \<Rightarrow> pyerr + pyval" where
  "getitem h x key =
     (case x of
        VRef a \<Rightarrow>
          (case lookup h a of
             Some (ODict kvs) \<Rightarrow>
               (case map_of kvs key of Some v \<Rightarrow> Inr v | None \<Rightarrow> Inl (KeyError (VStr key)))
           | _ \<Rightarrow> Inl TypeError)
      | _ \<Rightarrow> Inl TypeError)"

text \<open>\<open>l.append(v)\<close>: only a list has the method.\<close>

definition list_append :: "store \<Rightarrow> pyval \<Rightarrow> pyval \<Rightarrow> pyerr + store" where
  "list_append h l v =
     (case l of
        VRef a \<Rightarrow>
          (case lookup h a of
             Some (OList xs) \<Rightarrow> Inr (h[a := OList (xs @ [v])])
           | _ \<Rightarrow> Inl AttributeError)
      | _ \<Rightarrow> Inl AttributeError)"

text \<open>\<open>d.update(other)\<close> for a local dict \<open>other\<close>: its items are stored one by one.\<close>

fun update_items :: "pyval dict \<Rightarrow> pyval dict \<Rightarrow> pyval dict" where
  "update_items [] kvs = kvs"
| "update_items ((k, v) # other) kvs = update_items other (AList.update k v kvs)"

definition dict_update :: "store \<Rightarrow> pyval \<Rightarrow> pyval dict \<Rightarrow> pyerr + store" where
  "dict_update h d other =
     (case d of
        VRef a \<Rightarrow>
          (case lookup h a of
             Some (ODict kvs) \<Rightarrow> Inr (h[a := ODict (update_items other kvs)])
           | _ \<Rightarrow> Inl AttributeError)
      | _ \<Rightarrow> Inl AttributeError)"

text \<open>
  \<open>del c[index]\<close> with an integer index: a list drops the element at the index, a
  dict has no integer key in a document (\<open>KeyError\<close>), other values do not support
  deleting an item.
\<close>

definition delitem_index :: "store \<Rightarrow> pyval \<Rightarrow> nat \<Rightarrow> pyerr + store" where
  "delitem_index h c index =
     (case c of
        VRef a \<Rightarrow>
          (case lookup h a of
             Some (OList xs) \<Rightarrow>
               (if index < length xs
                then Inr (h[a := OList (take index xs @ drop (Suc index) xs)])
                else Inl IndexError)
           | Some (ODict kvs) \<Rightarrow> Inl (KeyError (VInt (int index)))
           | None \<Rightarrow> Inl TypeError)
      | _ \<Rightarrow> Inl TypeError)"

text \<open>
  \<open>key in d\<close>, \<open>del d[key]\<close> and \<open>d[key] = v\<close> with a string key, on a
  dict. (They are only reached after \<open>d.get\<close> has succeeded, so \<open>d\<close> is a dict;
  on another value the last two raise \<open>TypeError\<close>.)
\<close>

definition has_key :: "store \<Rightarrow> pyval \<Rightarrow> string \<Rightarrow> bool" where
  "has_key h d key =
     (case d of
        VRef a \<Rightarrow> (case lookup h a of Some (ODict kvs) \<Rightarrow> map_of kvs key \<noteq> None | _ \<Rightarrow> False)
      | _ \<Rightarrow> False)"

definition delitem_key :: "store \<Rightarrow> pyval \<Rightarrow> string \<Rightarrow> pyerr + store" where
  "delitem_key h d key =
     (case d of
        VRef a \<Rightarrow>
          (case lookup h a of
             Some (ODict kvs) \<Rightarrow>
               (if map_of kvs key \<noteq> None
                then Inr (h[a := ODict (AList.delete key kvs)])
                else Inl (KeyError (VStr key)))
           | _ \<Rightarrow> Inl TypeError)
      | _ \<Rightarrow> Inl TypeError)"

definition setitem :: "store \<Rightarrow> pyval \<Rightarrow> string \<Rightarrow> pyval \<Rightarrow> pyerr + store" where
  "setitem h d key v =
     (case d of
        VRef a \<Rightarrow>
          (case lookup h a of
             Some (ODict kvs) \<Rightarrow> Inr (h[a := ODict (AList.update key v kvs)])
           | _ \<Rightarrow> Inl TypeError)
      | _ \<Rightarrow> Inl TypeError)"




section \<open>pyproject.py: Pyproject\<close>

text \<open>
  A \<open>Pyproject\<close> holds the path of the file and the dict \<open>_data\<close> parsed from it;
  as a mapping it forwards every access to \<open>_data\<close>.
\<close>

record Pyproject =
  pyproject_path :: string
  pyproject_data :: nat

text \<open>
  \<open>Pyproject._set_version\<close>. \<open>config.get("version")\<close> is \<open>None\<close> when the
  key is absent.
\<close>

definition pyproject_set_version ::
  "store \<Rightarrow> pyval \<Rightarrow> string option \<Rightarrow> pyerr + pyval \<times> store" where
  "pyproject_set_version h config version =
     (case dict_get h config ''version'' of
        Inl e \<Rightarrow> Inl e
      | Inr got \<Rightarrow>
          (let old_version = (case got of None \<Rightarrow> VNone | Some v \<Rightarrow> v) in
           (case version of
              None \<Rightarrow>
                (if has_key h config ''version''
                 then (case delitem_key h config ''version'' of
                         Inl e \<Rightarrow> Inl e
                       | Inr h1 \<Rightarrow> Inr (old_version, h1))
                 else Inr (old_version, h))
            | Some v \<Rightarrow>
                (case setitem h config ''version'' (VStr v) of
                   Inl e \<Rightarrow> Inl e
                 | Inr h1 \<Rightarrow> Inr (old_version, h1)))))"

text \<open>\<open>Pyproject._tool_section\<close>.\<close>

definition tool_section :: "store \<Rightarrow> Pyproject \<Rightarrow> string \<Rightarrow> pyerr + pyval \<times> store" where
  "tool_section h pyproj nm =
     (case setdefault h (VRef (pyproject_data pyproj)) ''tool'' (ODict []) of
        Inl e \<Rightarrow> Inl e
      | Inr (tool, h1) \<Rightarrow> setdefault h1 tool nm (ODict []))"

text \<open>\<open>Pyproject._get_pyproj_sources\<close>: the new list enters the store.\<close>

definition get_pyproj_sources :: "store \<Rightarrow> pyval \<Rightarrow> pyerr + pyval \<times> store" where
  "get_pyproj_sources h sources_conf =
     (case setdefault h sources_conf ''source'' (OList []) of
        Inl e \<Rightarrow> Inl e
      | Inr (src, h1) \<Rightarrow>
          (case iter_values h1 src of
             Inl e \<Rightarrow> Inl e
           | Inr xs \<Rightarrow> Inr (alloc h1 (OList xs))))"

text \<open>
  \<open>Pyproject._delete_pyproj_source\<close>. \<open>find_index\<close> is
  \<open>next((i for i, v in enumerate(sources_conf) if v["name"] == source_name), None)\<close>.
\<close>

fun find_index :: "store \<Rightarrow> pyval list \<Rightarrow> string \<Rightarrow> nat \<Rightarrow> pyerr + nat option" where
  "find_index h [] source_name i = Inr None"
| "find_index h (v # vs) source_name i =
     (case getitem h v ''name'' of
        Inl e \<Rightarrow> Inl e
      | Inr n \<Rightarrow> (if n = VStr source_name then Inr (Some i)
                  else find_index h vs source_name (Suc i)))"

definition delete_pyproj_source :: "store \<Rightarrow> pyval \<Rightarrow> string \<Rightarrow> pyerr + store" where
  "delete_pyproj_source h sources_conf source_name =
     (case iter_values h sources_conf of
        Inl e \<Rightarrow> Inl e
      | Inr vs \<Rightarrow>
          (case find_index h vs source_name 0 of
             Inl e \<Rightarrow> Inl e
           | Inr None \<Rightarrow> Inl (KeyError (VStr source_name))
           | Inr (Some index) \<Rightarrow> delitem_index h sources_conf index))"

text \<open>
  \<open>Pyproject._upsert_pyproj_source\<close>. \<open>find_source\<close> is
  \<open>next((x for x in sources_conf if x["name"] == source_name), None)\<close>.
\<close>

definition source_config :: "string \<Rightarrow> string \<Rightarrow> bool \<Rightarrow> bool \<Rightarrow> pyval dict" where
  "source_config source_name source_url dflt secondary =
     (let c = [(''name'', VStr source_name), (''url'', VStr source_url)];
          c = (if dflt then AList.update ''default'' (VBool True) c else c);
          c = (if secondary then AList.update ''secondary'' (VBool True) c else c)
      in c)"

fun find_source :: "store \<Rightarrow> pyval list \<Rightarrow> string \<Rightarrow> pyerr + pyval option" where
  "find_source h [] source_name = Inr None"
| "find_source h (x # xs) source_name =
     (case getitem h x ''name'' of
        Inl e \<Rightarrow> Inl e
      | Inr n \<Rightarrow> (if n = VStr source_name then Inr (Some x)
                  else find_source h xs source_name))"

definition upsert_pyproj_source ::
  "store \<Rightarrow> pyval \<Rightarrow> string \<Rightarrow> string \<Rightarrow> bool \<Rightarrow> bool \<Rightarrow> pyerr + store" where
  "upsert_pyproj_source h sources_conf source_name source_url dflt secondary =
     (case iter_values h sources_conf of
        Inl e \<Rightarrow> Inl e
      | Inr xs \<Rightarrow>
          (case find_source h xs source_name of
             Inl e \<Rightarrow> Inl e
           | Inr None \<Rightarrow>
               (case alloc h (ODict (source_config source_name source_url dflt secondary)) of
                  (r, h1) \<Rightarrow> list_append h1 sources_conf r)
           | Inr (Some source) \<Rightarrow>
               dict_update h source (source_config source_name source_url dflt secondary)))"

section \<open>pyproject.py: PyprojectBase and its two subclasses\<close>

datatype PyprojectBase = PdmPyproject Pyproject | PoetryPyproject Pyproject

fun pyproj :: "PyprojectBase \<Rightarrow> Pyproject" where
  "pyproj (PdmPyproject p) = p"
| "pyproj (PoetryPyproject p) = p"

fun get_section :: "store \<Rightarrow> PyprojectBase \<Rightarrow> pyerr + pyval \<times> store" where
  "get_section h (PdmPyproject p) = tool_section h p ''pdm''"
| "get_section h (PoetryPyproject p) = tool_section h p ''poetry''"

definition set_version :: "store \<Rightarrow> PyprojectBase \<Rightarrow> string option \<Rightarrow> pyerr + pyval \<times> store" where
  "set_version h self version =
     (case get_section h self of
        Inl e \<Rightarrow> Inl e
      | Inr (section, h1) \<Rightarrow> pyproject_set_version h1 section version)"

definition get_sources :: "store \<Rightarrow> PyprojectBase \<Rightarrow> pyerr + pyval \<times> store" where
  "get_sources h self =
     (case get_section h self of
        Inl e \<Rightarrow> Inl e
      | Inr (section, h1) \<Rightarrow>
          (case setdefault h1 section ''source'' (OList []) of
             Inl e \<Rightarrow> Inl e
           | Inr (src, h2) \<Rightarrow>
               (case iter_values h2 src of
                  Inl e \<Rightarrow> Inl e
                | Inr xs \<Rightarrow> Inr (alloc h2 (OList xs)))))"

definition delete_source :: "store \<Rightarrow> PyprojectBase \<Rightarrow> string \<Rightarrow> pyerr + store" where
  "delete_source h self source_name =
     (case get_section h self of
        Inl e \<Rightarrow> Inl e
      | Inr (section, h1) \<Rightarrow> delete_pyproj_source h1 section source_name)"

definition upsert_source ::
  "store \<Rightarrow> PyprojectBase \<Rightarrow> string \<Rightarrow> string \<Rightarrow> bool \<Rightarrow> bool \<Rightarrow> pyerr + store" where
  "upsert_source h self source_name source_url dflt secondary =
     (case get_section h self of
        Inl e \<Rightarrow> Inl e
      | Inr (section, h1) \<Rightarrow>
          (case get_pyproj_sources h1 section of
             Inl e \<Rightarrow> Inl e
           | Inr (sources, h2) \<Rightarrow>
               upsert_pyproj_source h2 sources source_name source_url dflt secondary))"

text \<open>
  Reading the document back: the value stored under a key of a dict of the store, and
  the value at the end of a path of keys.
\<close>

definition field :: "store \<Rightarrow> pyval \<Rightarrow> string \<Rightarrow> pyval option" where
  "field h d key =
     (case d of
        VRef a \<Rightarrow> (case lookup h a of Some (ODict kvs) \<Rightarrow> map_of kvs key | _ \<Rightarrow> None)
      | _ \<Rightarrow> None)"

fun at_path :: "store \<Rightarrow> pyval \<Rightarrow> string list \<Rightarrow> pyval option" where
  "at_path h v [] = Some v"
| "at_path h v (k # ks) = (case field h v k of None \<Rightarrow> None | Some w \<Rightarrow> at_path h w ks)"

subsection \<open>Concrete documents used below\<close>

text \<open>
  The document \<open>{"tool": {"poetry": {"source": []}}}\<close>: the root dict at address 0,
  \<open>tool\<close> at 1, \<open>poetry\<close> at 2, the empty source list at 3.
\<close>

definition empty_sources_doc :: store where
  "empty_sources_doc =
     [ODict [(''tool'', VRef 1)], ODict [(''poetry'', VRef 2)], ODict [(''source'', VRef 3)],
      OList []]"

text \<open>
  The document \<open>{"tool": {"poetry": {"source": [{"name": "foo", "url": "https://foo"}]}}}\<close>,
  the entry at address 4.
\<close>

definition one_source_doc :: store where
  "one_source_doc =
     [ODict [(''tool'', VRef 1)], ODict [(''poetry'', VRef 2)], ODict [(''source'', VRef 3)],
      OList [VRef 4], ODict [(''name'', VStr ''foo''), (''url'', VStr ''https://foo'')]]"

definition poetry :: PyprojectBase where
  "poetry = PoetryPyproject \<lparr>pyproject_path = ''pyproject.toml'', pyproject_data = 0\<rparr>"

text \<open>
  The addresses an object refers to. In a store that is closed every reference leads to
  an object of the store; a store built by parsing a document is closed.
\<close>

fun refs_of_values :: "pyval list \<Rightarrow> nat list" where
  "refs_of_values [] = []"
| "refs_of_values (VRef a # vs) = a # refs_of_values vs"
| "refs_of_values (v # vs) = refs_of_values vs"



section \<open>pyproject.py: rewriting local dependencies\<close>

text \<open>
  \<open>_find_dependencies_definitions\<close> and \<open>_update_dependencies_version\<close> read and
  rewrite only the tables nested in the section they are handed, and the result does not
  depend on the identity of these tables as long as no table is reachable twice, which is
  the case in a parsed document. They are modelled on the section as a nested value, each
  function returning the table it was handed as it is after the call.
\<close>

datatype toml =
    TStr string
  | TBool bool
  | TInt int
  | TList "toml list"
  | TDict "(string \<times> toml) list"

text \<open>
  The body of the loop of \<open>_update_dependencies_version\<close>, for one \<open>value\<close>.
\<close>

definition update_dependency :: "toml \<Rightarrow> string \<Rightarrow> toml" where
  "update_dependency v version =
     (case v of
        TDict d \<Rightarrow>
          (if map_of d ''path'' \<noteq> None \<and> map_of d ''develop'' \<noteq> None
           then TDict (AList.update ''version'' (TStr version)
                         (AList.delete ''develop'' (AList.delete ''path'' d)))
           else v)
      | _ \<Rightarrow> v)"

fun update_dependencies_version :: "toml dict \<Rightarrow> string \<Rightarrow> toml dict" where
  "update_dependencies_version [] version = []"
| "update_dependencies_version ((key, v) # obj) version =
     (key, update_dependency v version) # update_dependencies_version obj version"

text \<open>
  \<open>_find_dependencies_definitions\<close>: \<open>find_in_value\<close> is the recursive call, made
  only for a \<open>value\<close> that is a dict.
\<close>

function find_in_value :: "toml \<Rightarrow> string \<Rightarrow> toml"
  and find_dependencies_definitions :: "toml dict \<Rightarrow> string \<Rightarrow> toml dict" where
  "find_in_value (TDict d) version = TDict (find_dependencies_definitions d version)"
| "find_in_value (TStr s) version = TStr s"
| "find_in_value (TBool b) version = TBool b"
| "find_in_value (TInt i) version = TInt i"
| "find_in_value (TList xs) version = TList xs"
| "find_dependencies_definitions [] version = []"
| "find_dependencies_definitions ((key, v) # pyproject_section) version =
     (if key = ''dependencies'' \<or> key = ''dev-dependencies''
      then (key, (case v of TDict d \<Rightarrow> TDict (update_dependencies_version d version) | _ \<Rightarrow> v))
      else (key, find_in_value v version))
     # find_dependencies_definitions pyproject_section version"
  by pat_completeness auto
termination
  by (relation "measure (\<lambda>x. case x of
        Inl (v, version) \<Rightarrow> size v
      | Inr (d, version) \<Rightarrow> size_list (size_prod (\<lambda>k. 0) size) d)") auto

text \<open>The value at the end of a path of keys in a nested value.\<close>

fun get_path :: "toml \<Rightarrow> string list \<Rightarrow> toml option" where
  "get_path v [] = Some v"
| "get_path v (k # ks) =
     (case v of
        TDict d \<Rightarrow> (case map_of d k of None \<Rightarrow> None | Some w \<Rightarrow> get_path w ks)
      | _ \<Rightarrow> None)"


definition is_table :: "toml \<Rightarrow> bool" where
  "is_table v = (case v of TDict d \<Rightarrow> True | _ \<Rightarrow> False)"

subsection \<open>Concrete sections used below\<close>




section \<open>uv.py: UvPyprojectHandler\<close>























section \<open>Properties of UvIndex and UvIndexes\<close>

subsection \<open>Masked and unmasked locations\<close>

lemma split_scheme_Some: "split_scheme s = Some (a, b) \<Longrightarrow> s = a @ ''://'' @ b"
proof (induction s arbitrary: a b)
  case Nil
  then show ?case by simp
next
  case (Cons c cs)
  show ?case
  proof (cases "prefix ''://'' (c # cs)")
    case True
    then obtain r where r: "c # cs = ''://'' @ r" by (auto simp: prefix_def)
    with Cons.prems True show ?thesis by simp
  next
    case False
    with Cons.prems obtain a' where "split_scheme cs = Some (a', b)" "a = c # a'"
      by (auto split: option.splits)
    with Cons.IH show ?thesis by simp
  qed
qed

text \<open>
  The password sits between a prefix and a suffix that do not depend on it.
\<close>

lemma inject_splice:
  "\<exists>pre post. \<forall>p. inject_url_credentials u n p = pre @ p @ post"
proof (cases "split_scheme u")
  case None
  show ?thesis
    apply (rule exI [of _ "n @ '':''"], rule exI [of _ "''@'' @ u"])
    using None by (simp add: inject_url_credentials_def)
next
  case (Some ab)
  obtain a b where ab: "ab = (a, b)" by (cases ab)
  show ?thesis
    apply (rule exI [of _ "a @ ''://'' @ n @ '':''"], rule exI [of _ "''@'' @ b"])
    using Some ab by (simp add: inject_url_credentials_def)
qed

text \<open>
  C1 (as amended). For an entry with credentials \<open>(u, s)\<close> the masked and the unmasked
  location are the location with the credentials embedded by the same function, the
  masked one with the placeholder \<open>[MASKED]\<close> for the secret: they share the text before
  and the text after the secret's position, where the masked location has
  \<open>[MASKED]\<close> and the unmasked one has \<open>s\<close>, and this text is the same for every
  secret. So the masked location does not depend on the secret, and the unmasked location
  contains \<open>s\<close>. For an entry without credentials both are the location itself.
\<close>

theorem safe_url_masks_secret:
  "(credentials i = Some (u, s) \<longrightarrow>
        safe_url i = inject_url_credentials (url i) u ''[MASKED]''
      \<and> unsafe_url i = inject_url_credentials (url i) u s
      \<and> (\<exists>pre post.
            safe_url i = pre @ ''[MASKED]'' @ post
          \<and> unsafe_url i = pre @ s @ post
          \<and> (\<forall>s'. safe_url (i\<lparr>credentials := Some (u, s')\<rparr>) = pre @ ''[MASKED]'' @ post
                 \<and> unsafe_url (i\<lparr>credentials := Some (u, s')\<rparr>) = pre @ s' @ post))
      \<and> safe_url (i\<lparr>credentials := Some (u, s2)\<rparr>) = safe_url i
      \<and> sublist s (unsafe_url i))
   \<and> (credentials i = None \<longrightarrow> safe_url i = url i \<and> unsafe_url i = url i)"
proof -
  obtain pre post where sh: "\<forall>p. inject_url_credentials (url i) u p = pre @ p @ post"
    using inject_splice [of "url i" u] by blast
  have n: "credentials i = None \<longrightarrow> safe_url i = url i \<and> unsafe_url i = url i"
    by (simp add: safe_url_def unsafe_url_def)
  have c: "credentials i = Some (u, s) \<longrightarrow>
        safe_url i = inject_url_credentials (url i) u ''[MASKED]''
      \<and> unsafe_url i = inject_url_credentials (url i) u s
      \<and> (\<exists>pre post.
            safe_url i = pre @ ''[MASKED]'' @ post
          \<and> unsafe_url i = pre @ s @ post
          \<and> (\<forall>s'. safe_url (i\<lparr>credentials := Some (u, s')\<rparr>) = pre @ ''[MASKED]'' @ post
                 \<and> unsafe_url (i\<lparr>credentials := Some (u, s')\<rparr>) = pre @ s' @ post))
      \<and> safe_url (i\<lparr>credentials := Some (u, s2)\<rparr>) = safe_url i
      \<and> sublist s (unsafe_url i)"
  proof
    assume cr: "credentials i = Some (u, s)"
    have 1: "safe_url i = inject_url_credentials (url i) u ''[MASKED]''"
      using cr by (simp add: safe_url_def)
    have 2: "unsafe_url i = inject_url_credentials (url i) u s"
      using cr by (simp add: unsafe_url_def)
    have s: "safe_url i = pre @ ''[MASKED]'' @ post" using 1 sh by simp
    have us: "unsafe_url i = pre @ s @ post" using 2 sh by simp
    have al: "\<forall>s'. safe_url (i\<lparr>credentials := Some (u, s')\<rparr>) = pre @ ''[MASKED]'' @ post
                 \<and> unsafe_url (i\<lparr>credentials := Some (u, s')\<rparr>) = pre @ s' @ post"
      using sh by (simp add: safe_url_def unsafe_url_def)
    have 3: "\<exists>pre post.
            safe_url i = pre @ ''[MASKED]'' @ post
          \<and> unsafe_url i = pre @ s @ post
          \<and> (\<forall>s'. safe_url (i\<lparr>credentials := Some (u, s')\<rparr>) = pre @ ''[MASKED]'' @ post
                 \<and> unsafe_url (i\<lparr>credentials := Some (u, s')\<rparr>) = pre @ s' @ post)"
      by (rule exI [of _ pre], rule exI [of _ post]) (intro conjI s us al)
    have 4: "safe_url (i\<lparr>credentials := Some (u, s2)\<rparr>) = safe_url i"
      using cr by (simp add: safe_url_def)
    have 5: "sublist s (unsafe_url i)" unfolding us by (rule sublist_appendI)
    show "safe_url i = inject_url_credentials (url i) u ''[MASKED]''
      \<and> unsafe_url i = inject_url_credentials (url i) u s
      \<and> (\<exists>pre post.
            safe_url i = pre @ ''[MASKED]'' @ post
          \<and> unsafe_url i = pre @ s @ post
          \<and> (\<forall>s'. safe_url (i\<lparr>credentials := Some (u, s')\<rparr>) = pre @ ''[MASKED]'' @ post
                 \<and> unsafe_url (i\<lparr>credentials := Some (u, s')\<rparr>) = pre @ s' @ post))
      \<and> safe_url (i\<lparr>credentials := Some (u, s2)\<rparr>) = safe_url i
      \<and> sublist s (unsafe_url i)"
      by (intro conjI 1 2 3 4 5)
  qed
  show ?thesis by (intro conjI n c)
qed

theorem safe_url_masks_secret_witness:
  "credentials masked_entry = Some (''u'', ''hunter2'')
   \<and> safe_url masked_entry = ''https://u:[MASKED]@a/simple''
   \<and> unsafe_url masked_entry = ''https://u:hunter2@a/simple''
   \<and> safe_url (masked_entry\<lparr>credentials := Some (''u'', ''other'')\<rparr>) = safe_url masked_entry
   \<and> sublist ''hunter2'' (unsafe_url masked_entry)
   \<and> credentials (masked_entry\<lparr>credentials := None\<rparr>) = None
   \<and> safe_url (masked_entry\<lparr>credentials := None\<rparr>) = ''https://a/simple''
   \<and> unsafe_url (masked_entry\<lparr>credentials := None\<rparr>) = ''https://a/simple''"
proof -
  have a: "credentials masked_entry = Some (''u'', ''hunter2'')"
    by (simp add: masked_entry_def)
  have b: "credentials (masked_entry\<lparr>credentials := None\<rparr>) = None" by simp
  have c: "safe_url masked_entry = ''https://u:[MASKED]@a/simple''
     \<and> unsafe_url masked_entry = ''https://u:hunter2@a/simple''
     \<and> safe_url (masked_entry\<lparr>credentials := None\<rparr>) = ''https://a/simple''
     \<and> unsafe_url (masked_entry\<lparr>credentials := None\<rparr>) = ''https://a/simple''"
    by (simp add: masked_entry_def safe_url_def unsafe_url_def inject_url_credentials_def)
  from safe_url_masks_secret [of masked_entry "''u''" "''hunter2''" "''other''"]
    safe_url_masks_secret [of "masked_entry\<lparr>credentials := None\<rparr>" "''u''" "''hunter2''" "''other''"]
    a b c
  show ?thesis by blast
qed

text \<open>
  C1 as stated fails: a non-empty secret that occurs in the placeholder (or in the
  location or the user name) occurs in the masked location.
\<close>

theorem safe_url_contains_secret_counterexample:
  "credentials placeholder_entry = Some (''u'', ''MASKED'') \<and> ''MASKED'' \<noteq> []
   \<and> sublist ''MASKED'' (safe_url placeholder_entry)"
  by (simp add: placeholder_entry_def safe_url_def inject_url_credentials_def sublist_Cons_right)

subsection \<open>Construction of a collection\<close>

lemma filter_nonempty_nth:
  "0 < length (filter P xs) \<longleftrightarrow> (\<exists>j<length xs. P (xs ! j))"
  by (metis filter_False in_set_conv_nth length_greater_0_conv filter_empty_conv)

lemma filter_two_positions:
  "1 < length (filter P xs) \<longleftrightarrow> (\<exists>i j. i < j \<and> j < length xs \<and> P (xs ! i) \<and> P (xs ! j))"
proof (induction xs)
  case Nil
  show ?case by simp
next
  case (Cons x xs)
  show ?case
  proof
    assume L: "1 < length (filter P (x # xs))"
    show "\<exists>i j. i < j \<and> j < length (x # xs) \<and> P ((x # xs) ! i) \<and> P ((x # xs) ! j)"
    proof (cases "P x")
      case True
      with L have "0 < length (filter P xs)" by simp
      then obtain j where "j < length xs" "P (xs ! j)"
        using filter_nonempty_nth [of P xs] by blast
      with True have "0 < Suc j \<and> Suc j < length (x # xs) \<and> P ((x # xs) ! 0) \<and> P ((x # xs) ! Suc j)"
        by simp
      then show ?thesis by blast
    next
      case False
      with L have "1 < length (filter P xs)" by simp
      with Cons.IH obtain i j where "i < j" "j < length xs" "P (xs ! i)" "P (xs ! j)" by blast
      then have "Suc i < Suc j \<and> Suc j < length (x # xs) \<and> P ((x # xs) ! Suc i) \<and> P ((x # xs) ! Suc j)"
        by simp
      then show ?thesis by blast
    qed
  next
    assume "\<exists>i j. i < j \<and> j < length (x # xs) \<and> P ((x # xs) ! i) \<and> P ((x # xs) ! j)"
    then obtain i j where ij: "i < j" "j < length (x # xs)" "P ((x # xs) ! i)" "P ((x # xs) ! j)"
      by blast
    from ij(1) obtain j' where j': "j = Suc j'" by (cases j) auto
    with ij have pj: "j' < length xs" "P (xs ! j')" by auto
    show "1 < length (filter P (x # xs))"
    proof (cases i)
      case 0
      with ij(3) have "P x" by simp
      moreover from pj have "0 < length (filter P xs)"
        using filter_nonempty_nth [of P xs] by blast
      ultimately show ?thesis by simp
    next
      case (Suc i')
      with ij j' have "i' < j'" "P (xs ! i')" by auto
      with pj Cons.IH have "1 < length (filter P xs)" by blast
      then show ?thesis by (cases "P x") auto
    qed
  qed
qed

text \<open>
  C2. Constructing a collection from a sequence in which more than one entry is flagged
  default (two different positions are, which is the same as the count of flagged entries
  exceeding one) fails with the validation error; from a sequence with at most one
  flagged entry it succeeds and yields exactly that sequence, nothing corrected.
\<close>

theorem UvIndexes_init_default_check:
  "((\<exists>i j. i < j \<and> j < length xs \<and> is_default (xs ! i) \<and> is_default (xs ! j))
      \<longrightarrow> UvIndexes_init xs = Inl (ValueError ''There can be only one default index.''))
   \<and> (1 < length (filter is_default xs)
      \<longrightarrow> UvIndexes_init xs = Inl (ValueError ''There can be only one default index.''))
   \<and> (length (filter is_default xs) \<le> 1 \<longrightarrow> UvIndexes_init xs = Inr \<lparr>indexes = xs\<rparr>)"
  using filter_two_positions [of is_default xs]
  by (auto simp: UvIndexes_init_def)

theorem UvIndexes_init_default_check_witness:
  "(0::nat) < 1 \<and> 1 < length two_defaults
   \<and> is_default (two_defaults ! 0) \<and> is_default (two_defaults ! 1)
   \<and> 1 < length (filter is_default two_defaults)
   \<and> UvIndexes_init two_defaults = Inl (ValueError ''There can be only one default index.'')
   \<and> length (filter is_default (tl two_defaults)) \<le> 1
   \<and> UvIndexes_init (tl two_defaults) = Inr \<lparr>indexes = tl two_defaults\<rparr>"
proof -
  have p: "\<exists>i j. i < j \<and> j < length two_defaults
      \<and> is_default (two_defaults ! i) \<and> is_default (two_defaults ! j)"
    by (rule exI [of _ 0], rule exI [of _ 1]) (simp add: two_defaults_def)
  have q: "length (filter is_default (tl two_defaults)) \<le> 1"
    by (simp add: two_defaults_def)
  from p q UvIndexes_init_default_check [of two_defaults]
    UvIndexes_init_default_check [of "tl two_defaults"]
  show ?thesis by (simp add: two_defaults_def)
qed

subsection \<open>Document fields\<close>

lemma to_config_loop_map: "to_config_loop xs acc = acc @ map config_entry xs"
  by (induction xs arbitrary: acc) auto

lemma to_config_map: "to_config c = map config_entry (indexes c)"
  by (simp add: to_config_def to_config_loop_map)

lemma config_entry_name:
  "map_of (config_entry i) ''name'' =
     (case name i of None \<Rightarrow> None | Some n \<Rightarrow> if n = [] then None else Some (VStr n))"
  by (auto simp: config_entry_def Let_def update_conv' split: option.splits)

lemma config_entry_url: "map_of (config_entry i) ''url'' = Some (VStr (url i))"
  by (auto simp: config_entry_def Let_def update_conv')

lemma config_entry_default:
  "map_of (config_entry i) ''default'' = (if is_default i then Some (VBool True) else None)"
  by (auto simp: config_entry_def Let_def update_conv')

lemma config_entry_explicit:
  "map_of (config_entry i) ''explicit'' = (if explicit i then Some (VBool True) else None)"
  by (auto simp: config_entry_def Let_def update_conv')

lemma config_entry_keys:
  "map fst (config_entry i) =
     (if name i \<noteq> None \<and> name i \<noteq> Some '''' then [''name''] else []) @ [''url'']
     @ (if is_default i then [''default''] else [])
     @ (if explicit i then [''explicit''] else [])"
  by (simp add: config_entry_def Let_def)

text \<open>
  C5 (as amended). \<open>to_config\<close> emits one map per entry, in collection order, with
  \<open>name\<close> only when the identity is non-empty, \<open>url\<close> equal to the entry's
  location as stored in the entry (credentials are not embedded), \<open>default: true\<close>
  only when the entry is default and \<open>explicit: true\<close> only when it is explicit;
  no other key is written.
\<close>

theorem to_config_entries:
  "length (to_config c) = length (indexes c)
   \<and> (\<forall>k<length (indexes c).
        map_of (to_config c ! k) ''name'' =
          (case name (indexes c ! k) of
             None \<Rightarrow> None
           | Some n \<Rightarrow> if n = [] then None else Some (VStr n))
      \<and> map_of (to_config c ! k) ''url'' = Some (VStr (url (indexes c ! k)))
      \<and> map_of (to_config c ! k) ''default'' =
          (if is_default (indexes c ! k) then Some (VBool True) else None)
      \<and> map_of (to_config c ! k) ''explicit'' =
          (if explicit (indexes c ! k) then Some (VBool True) else None)
      \<and> set (map fst (to_config c ! k)) \<subseteq> {''name'', ''url'', ''default'', ''explicit''}
      \<and> distinct (map fst (to_config c ! k)))"
  by (simp add: to_config_map config_entry_name config_entry_url config_entry_default
      config_entry_explicit config_entry_keys)

theorem to_config_entries_witness:
  "(0::nat) < length (indexes \<lparr>indexes = [named_default_entry]\<rparr>)
   \<and> to_config \<lparr>indexes = [named_default_entry]\<rparr> ! 0 =
       [(''name'', VStr ''internal''), (''url'', VStr ''https://a/simple''), (''default'', VBool True)]
   \<and> map_of (to_config \<lparr>indexes = [named_default_entry]\<rparr> ! 0) ''url''
       = Some (VStr ''https://a/simple'')
   \<and> map_of (to_config \<lparr>indexes = [named_default_entry]\<rparr> ! 0) ''explicit'' = None"
  using to_config_entries [of "\<lparr>indexes = [named_default_entry]\<rparr>"]
  by (simp add: named_default_entry_def to_config_def config_entry_def)

text \<open>
  C5 as stated fails: for an entry with credentials the \<open>url\<close> written is not the
  unmasked location.
\<close>

theorem to_config_url_counterexample:
  "credentials named_default_entry = Some (''u'', ''p'')
   \<and> map_of (to_config \<lparr>indexes = [named_default_entry]\<rparr> ! 0) ''url''
       = Some (VStr ''https://a/simple'')
   \<and> unsafe_url named_default_entry = ''https://u:p@a/simple''
   \<and> map_of (to_config \<lparr>indexes = [named_default_entry]\<rparr> ! 0) ''url''
       \<noteq> Some (VStr (unsafe_url named_default_entry))"
  by (simp add: named_default_entry_def to_config_def config_entry_def unsafe_url_def
      inject_url_credentials_def)

subsection \<open>Environment variables\<close>

lemma to_env_loop_tokens:
  "snd (to_env_loop xs env uv) = uv @ map env_token (filter (\<lambda>i. \<not> is_default i) xs)"
  by (induction xs arbitrary: env uv) auto

lemma to_env_loop_no_default:
  "filter is_default xs = [] \<Longrightarrow> fst (to_env_loop xs env uv) = env"
  by (induction xs arbitrary: env uv) (auto split: if_splits)

lemma to_env_loop_one_default:
  "filter is_default xs = [d] \<Longrightarrow>
     fst (to_env_loop xs env uv) = AList.update ''UV_DEFAULT_INDEX'' (unsafe_url d) env"
  by (induction xs arbitrary: env uv) (auto split: if_splits simp: to_env_loop_no_default)

lemma to_env_loop_keys:
  "set (map fst (fst (to_env_loop xs env uv))) \<subseteq> insert ''UV_DEFAULT_INDEX'' (set (map fst env))"
proof (induction xs arbitrary: env uv)
  case Nil
  show ?case by auto
next
  case (Cons x xs)
  show ?case
  proof (cases "is_default x")
    case True
    have "set (map fst (fst (to_env_loop xs (AList.update ''UV_DEFAULT_INDEX'' (unsafe_url x) env) uv)))
        \<subseteq> insert ''UV_DEFAULT_INDEX'' (set (map fst (AList.update ''UV_DEFAULT_INDEX'' (unsafe_url x) env)))"
      by (rule Cons.IH)
    also have "\<dots> = insert ''UV_DEFAULT_INDEX'' (set (map fst env))"
      using dom_update [of "''UV_DEFAULT_INDEX''" "unsafe_url x" env] by auto
    finally show ?thesis using True by simp
  next
    case False
    then show ?thesis using Cons.IH [of env "uv @ [env_token x]"] by simp
  qed
qed

lemma to_env_loop_distinct:
  "distinct (map fst env) \<Longrightarrow> distinct (map fst (fst (to_env_loop xs env uv)))"
  by (induction xs arbitrary: env uv) (auto simp: distinct_update)

lemma to_env_distinct: "distinct (map fst (to_env c))"
proof -
  have d: "distinct (map fst (fst (to_env_loop (indexes c) [] [])))"
    by (rule to_env_loop_distinct) simp
  show ?thesis
    using d by (cases "to_env_loop (indexes c) [] []") (auto simp: to_env_def distinct_update)
qed

lemma to_env_keys: "set (map fst (to_env c)) \<subseteq> {''UV_DEFAULT_INDEX'', ''UV_INDEX''}"
proof -
  have k: "set (map fst (fst (to_env_loop (indexes c) [] []))) \<subseteq> {''UV_DEFAULT_INDEX''}"
    using to_env_loop_keys [of "indexes c" "[]" "[]"] by simp
  obtain env uv where l: "to_env_loop (indexes c) [] [] = (env, uv)"
    by (cases "to_env_loop (indexes c) [] []")
  with k have "set (map fst env) \<subseteq> {''UV_DEFAULT_INDEX''}" by simp
  moreover have "set (map fst (AList.update ''UV_INDEX'' (join '' '' uv) env))
      = insert ''UV_INDEX'' (set (map fst env))"
    using dom_update [of "''UV_INDEX''" "join '' '' uv" env] by auto
  ultimately show ?thesis using l by (auto simp: to_env_def)
qed

lemma to_env_uv_index:
  "map_of (to_env c) ''UV_INDEX'' =
     (if filter (\<lambda>i. \<not> is_default i) (indexes c) = [] then None
      else Some (join '' '' (map env_token (filter (\<lambda>i. \<not> is_default i) (indexes c)))))"
proof -
  obtain env uv where l: "to_env_loop (indexes c) [] [] = (env, uv)"
    by (cases "to_env_loop (indexes c) [] []")
  have uv: "uv = map env_token (filter (\<lambda>i. \<not> is_default i) (indexes c))"
    using to_env_loop_tokens [of "indexes c" "[]" "[]"] l by simp
  have "set (map fst env) \<subseteq> {''UV_DEFAULT_INDEX''}"
    using to_env_loop_keys [of "indexes c" "[]" "[]"] l by simp
  then have "''UV_INDEX'' \<notin> fst ` set env" by auto
  then have "map_of env ''UV_INDEX'' = None" by (simp add: map_of_eq_None_iff)
  then show ?thesis using l uv by (simp add: to_env_def update_conv')
qed

lemma to_env_default_index:
  "map_of (to_env c) ''UV_DEFAULT_INDEX'' =
     map_of (fst (to_env_loop (indexes c) [] [])) ''UV_DEFAULT_INDEX''"
  by (cases "to_env_loop (indexes c) [] []") (simp add: to_env_def update_conv')

text \<open>
  C6. When exactly one entry \<open>d\<close> is default, the variable \<open>UV_DEFAULT_INDEX\<close>
  holds the unmasked location of \<open>d\<close>; when none is, the variable is absent. The
  non-default entries, in order, are joined with single spaces into \<open>UV_INDEX\<close>, each
  as its unmasked location prefixed by \<open>identity=\<close> unless the identity is absent or
  empty; with no non-default entry \<open>UV_INDEX\<close> is absent. The result has no other
  key and no key twice, so at most one default-index variable is emitted.
\<close>

theorem to_env_variables:
  "(filter is_default (indexes c) = [d] \<longrightarrow>
        map_of (to_env c) ''UV_DEFAULT_INDEX'' = Some (unsafe_url d))
   \<and> (filter is_default (indexes c) = [] \<longrightarrow> map_of (to_env c) ''UV_DEFAULT_INDEX'' = None)
   \<and> map_of (to_env c) ''UV_INDEX'' =
        (if filter (\<lambda>i. \<not> is_default i) (indexes c) = [] then None
         else Some (join '' '' (map env_token (filter (\<lambda>i. \<not> is_default i) (indexes c)))))
   \<and> env_token i =
        (case name i of
           None \<Rightarrow> unsafe_url i
         | Some n \<Rightarrow> if n = [] then unsafe_url i else n @ ''='' @ unsafe_url i)
   \<and> distinct (map fst (to_env c))
   \<and> set (map fst (to_env c)) \<subseteq> {''UV_DEFAULT_INDEX'', ''UV_INDEX''}"
proof -
  have a: "filter is_default (indexes c) = [d] \<longrightarrow>
        map_of (to_env c) ''UV_DEFAULT_INDEX'' = Some (unsafe_url d)"
    by (simp add: to_env_default_index to_env_loop_one_default)
  have b: "filter is_default (indexes c) = [] \<longrightarrow> map_of (to_env c) ''UV_DEFAULT_INDEX'' = None"
    by (simp add: to_env_default_index to_env_loop_no_default)
  have t: "env_token i =
        (case name i of
           None \<Rightarrow> unsafe_url i
         | Some n \<Rightarrow> if n = [] then unsafe_url i else n @ ''='' @ unsafe_url i)"
    by (simp add: env_token_def split: option.splits)
  from a b t to_env_uv_index [of c] to_env_distinct [of c] to_env_keys [of c]
  show ?thesis by blast
qed

theorem to_env_variables_witness:
  "filter is_default (indexes \<lparr>indexes = env_example\<rparr>) = [env_example ! 0]
   \<and> map_of (to_env \<lparr>indexes = env_example\<rparr>) ''UV_DEFAULT_INDEX'' = Some ''https://u:p@a/simple''
   \<and> map_of (to_env \<lparr>indexes = env_example\<rparr>) ''UV_INDEX''
       = Some ''internal=https://b/simple https://c/simple''
   \<and> filter is_default (indexes \<lparr>indexes = []\<rparr>) = []
   \<and> map_of (to_env \<lparr>indexes = []\<rparr>) ''UV_DEFAULT_INDEX'' = None
   \<and> map_of (to_env \<lparr>indexes = []\<rparr>) ''UV_INDEX'' = None"
  using to_env_variables [of "\<lparr>indexes = env_example\<rparr>" "env_example ! 0" "env_example ! 1"]
    to_env_variables [of "\<lparr>indexes = []\<rparr>" "env_example ! 0" "env_example ! 1"]
  by (simp add: env_example_def env_token_def unsafe_url_def inject_url_credentials_def)

section \<open>Properties of pyproject.py\<close>

subsection \<open>The version field\<close>


lemma field_dict: "lookup h a = Some (ODict kvs) \<Longrightarrow> field h (VRef a) k = map_of kvs k"
  by (simp add: field_def)

lemma set_version_set:
  assumes "lookup h a = Some (ODict kvs)"
  shows "pyproject_set_version h (VRef a) (Some v) =
           Inr ((case map_of kvs ''version'' of None \<Rightarrow> VNone | Some w \<Rightarrow> w),
                h[a := ODict (AList.update ''version'' (VStr v) kvs)])"
  using assms by (simp add: pyproject_set_version_def dict_get_def setitem_def)

lemma set_version_remove:
  assumes "lookup h a = Some (ODict kvs)"
  shows "pyproject_set_version h (VRef a) None =
           Inr ((case map_of kvs ''version'' of None \<Rightarrow> VNone | Some w \<Rightarrow> w),
                h[a := ODict (AList.delete ''version'' kvs)])"
proof (cases "map_of kvs ''version''")
  case None
  then have "AList.delete ''version'' kvs = kvs"
    by (simp add: map_of_eq_None_iff)
  moreover from assms have "h[a := ODict kvs] = h"
    by (metis lookup_def list_update_id option.inject option.distinct(1))
  ultimately show ?thesis
    using assms None by (simp add: pyproject_set_version_def dict_get_def has_key_def)
next
  case (Some w)
  then show ?thesis
    using assms by (simp add: pyproject_set_version_def dict_get_def has_key_def delitem_key_def)
qed

lemma set_version_store:
  assumes "lookup h a = Some (ODict kvs)"
  shows "pyproject_set_version h (VRef a) version =
           Inr ((case map_of kvs ''version'' of None \<Rightarrow> VNone | Some w \<Rightarrow> w),
                h[a := ODict (case version of
                                None \<Rightarrow> AList.delete ''version'' kvs
                              | Some v \<Rightarrow> AList.update ''version'' (VStr v) kvs)])"
  using assms by (cases version) (simp_all add: set_version_set set_version_remove)

text \<open>
  C7. On a section that is a dict, \<open>_set_version\<close> returns the value previously
  stored under \<open>version\<close> (\<open>None\<close> if absent); afterwards the key is absent
  when the new version is \<open>None\<close> and holds the new version otherwise; every other
  key of the section and every other object is as before. In particular, on a section
  without the key, setting \<open>v\<close> returns \<open>None\<close> and leaves \<open>version = v\<close>, and
  setting \<open>None\<close> next removes the key and returns \<open>v\<close>.
\<close>

theorem set_version_returns_previous:
  assumes "lookup h a = Some (ODict kvs)"
  shows "\<exists>h'. pyproject_set_version h (VRef a) version =
            Inr ((case map_of kvs ''version'' of None \<Rightarrow> VNone | Some w \<Rightarrow> w), h')
          \<and> field h' (VRef a) ''version'' = map_option VStr version
          \<and> (\<forall>k. k \<noteq> ''version'' \<longrightarrow> field h' (VRef a) k = field h (VRef a) k)
          \<and> length h' = length h
          \<and> (\<forall>b. b \<noteq> a \<longrightarrow> lookup h' b = lookup h b)
          \<and> (map_of kvs ''version'' = None \<longrightarrow>
               (\<exists>h1 h2. pyproject_set_version h (VRef a) (Some v) = Inr (VNone, h1)
                  \<and> field h1 (VRef a) ''version'' = Some (VStr v)
                  \<and> pyproject_set_version h1 (VRef a) None = Inr (VStr v, h2)
                  \<and> field h2 (VRef a) ''version'' = None))"
proof -
  let ?kvs' = "case version of
                 None \<Rightarrow> AList.delete ''version'' kvs
               | Some v \<Rightarrow> AList.update ''version'' (VStr v) kvs"
  let ?h' = "h[a := ODict ?kvs']"
  from assms have a: "a < length h" by (simp add: lookup_def split: if_splits)
  have l': "lookup ?h' a = Some (ODict ?kvs')" using a by (simp add: lookup_def)
  have 1: "pyproject_set_version h (VRef a) version =
            Inr ((case map_of kvs ''version'' of None \<Rightarrow> VNone | Some w \<Rightarrow> w), ?h')"
    using assms by (rule set_version_store)
  have 2: "field ?h' (VRef a) ''version'' = map_option VStr version"
    using l' by (cases version) (simp_all add: field_def update_conv' delete_conv')
  have 3: "\<forall>k. k \<noteq> ''version'' \<longrightarrow> field ?h' (VRef a) k = field h (VRef a) k"
    using l' assms by (cases version) (simp_all add: field_def update_conv' delete_conv')
  have 4: "length ?h' = length h" by simp
  have 5: "\<forall>b. b \<noteq> a \<longrightarrow> lookup ?h' b = lookup h b" by (simp add: lookup_def)
  have 6: "map_of kvs ''version'' = None \<longrightarrow>
               (\<exists>h1 h2. pyproject_set_version h (VRef a) (Some v) = Inr (VNone, h1)
                  \<and> field h1 (VRef a) ''version'' = Some (VStr v)
                  \<and> pyproject_set_version h1 (VRef a) None = Inr (VStr v, h2)
                  \<and> field h2 (VRef a) ''version'' = None)"
  proof
    assume n: "map_of kvs ''version'' = None"
    let ?k1 = "AList.update ''version'' (VStr v) kvs"
    let ?h1 = "h[a := ODict ?k1]"
    let ?h2 = "?h1[a := ODict (AList.delete ''version'' ?k1)]"
    have l1: "lookup ?h1 a = Some (ODict ?k1)" using a by (simp add: lookup_def)
    have s1: "pyproject_set_version h (VRef a) (Some v) = Inr (VNone, ?h1)"
      using set_version_set [OF assms, of v] n by simp
    have f1: "field ?h1 (VRef a) ''version'' = Some (VStr v)"
      using l1 by (simp add: field_def update_conv')
    have s2: "pyproject_set_version ?h1 (VRef a) None = Inr (VStr v, ?h2)"
      using set_version_remove [OF l1] by (simp add: update_conv')
    have f2: "field ?h2 (VRef a) ''version'' = None"
      using a by (simp add: field_def lookup_def delete_conv')
    from s1 f1 s2 f2 show "\<exists>h1 h2. pyproject_set_version h (VRef a) (Some v) = Inr (VNone, h1)
                  \<and> field h1 (VRef a) ''version'' = Some (VStr v)
                  \<and> pyproject_set_version h1 (VRef a) None = Inr (VStr v, h2)
                  \<and> field h2 (VRef a) ''version'' = None"
      by blast
  qed
  show ?thesis
    by (rule exI [of _ ?h']) (intro conjI 1 2 3 4 5 6)
qed

text \<open>\<open>PyprojectBase.set_version\<close> is \<open>_set_version\<close> on the section of the adapter.\<close>

lemma set_version_delegates:
  "get_section h self = Inr (section, h1) \<Longrightarrow>
     set_version h self version = pyproject_set_version h1 section version"
  by (simp add: set_version_def)

theorem set_version_returns_previous_witness:
  "lookup [ODict [(''name'', VStr ''pkg'')]] 0 = Some (ODict [(''name'', VStr ''pkg'')])
   \<and> map_of [(''name'', VStr ''pkg'')] ''version'' = None
   \<and> pyproject_set_version [ODict [(''name'', VStr ''pkg'')]] (VRef 0) (Some ''2.0.0'')
       = Inr (VNone, [ODict [(''name'', VStr ''pkg''), (''version'', VStr ''2.0.0'')]])
   \<and> pyproject_set_version [ODict [(''name'', VStr ''pkg''), (''version'', VStr ''2.0.0'')]]
         (VRef 0) None
       = Inr (VStr ''2.0.0'', [ODict [(''name'', VStr ''pkg'')]])"
  using set_version_returns_previous [of "[ODict [(''name'', VStr ''pkg'')]]" 0
      "[(''name'', VStr ''pkg'')]" "Some ''2.0.0''" "''2.0.0''"]
  by (simp add: lookup_def pyproject_set_version_def dict_get_def setitem_def has_key_def
      delitem_key_def)

subsection \<open>Sources\<close>

text \<open>
  C3 at a failing input. On the document \<open>{"tool": {"poetry": {"source": []}}}\<close>,
  \<open>upsert_source("foo", "https://foo")\<close> returns normally, but the new entry (at
  address 5) is appended to the copy of the source list made by
  \<open>_get_pyproj_sources\<close> (at address 4): the source list of the document (at address
  3) is still empty.
\<close>

theorem upsert_source_new_entry_lost:
  "upsert_source empty_sources_doc poetry ''foo'' ''https://foo'' False False =
     Inr [ODict [(''tool'', VRef 1)], ODict [(''poetry'', VRef 2)], ODict [(''source'', VRef 3)],
          OList [],
          OList [VRef 5],
          ODict [(''name'', VStr ''foo''), (''url'', VStr ''https://foo'')]]
   \<and> (case upsert_source empty_sources_doc poetry ''foo'' ''https://foo'' False False of
        Inl e \<Rightarrow> False
      | Inr h' \<Rightarrow>
          at_path h' (VRef 0) [''tool'', ''poetry'', ''source''] = Some (VRef 3)
          \<and> lookup h' 3 = Some (OList []))"
  by code_simp

text \<open>
  For a name that exists the entry is shared between the copy and the document, and the
  update reaches the document.
\<close>

lemma upsert_source_existing_entry_updated:
  "upsert_source one_source_doc poetry ''foo'' ''https://bar'' True False =
     Inr [ODict [(''tool'', VRef 1)], ODict [(''poetry'', VRef 2)], ODict [(''source'', VRef 3)],
          OList [VRef 4],
          ODict [(''name'', VStr ''foo''), (''url'', VStr ''https://bar''), (''default'', VBool True)],
          OList [VRef 4]]"
  by code_simp

text \<open>
  C4 at a failing input. On the document
  \<open>{"tool": {"poetry": {"source": [{"name": "foo", "url": "https://foo"}]}}}\<close>,
  \<open>delete_source("foo")\<close> raises \<open>TypeError\<close> although an entry of that name
  exists: it hands the section, not the source list of the section, to
  \<open>_delete_pyproj_source\<close>, which then indexes the key \<open>"source"\<close> of the section
  with \<open>"name"\<close>. Handed the source list, \<open>_delete_pyproj_source\<close> removes the
  entry.
\<close>

theorem delete_source_type_error:
  "at_path one_source_doc (VRef 0) [''tool'', ''poetry'', ''source''] = Some (VRef 3)
   \<and> lookup one_source_doc 3 = Some (OList [VRef 4])
   \<and> field one_source_doc (VRef 4) ''name'' = Some (VStr ''foo'')
   \<and> delete_source one_source_doc poetry ''foo'' = Inl TypeError
   \<and> delete_pyproj_source one_source_doc (VRef 3) ''foo'' =
       Inr [ODict [(''tool'', VRef 1)], ODict [(''poetry'', VRef 2)],
            ODict [(''source'', VRef 3)], OList [],
            ODict [(''name'', VStr ''foo''), (''url'', VStr ''https://foo'')]]"
  by code_simp

subsection \<open>Rewriting local dependencies\<close>


lemma update_dependencies_version_keys:
  "map fst (update_dependencies_version obj version) = map fst obj"
  by (induction obj version rule: update_dependencies_version.induct) auto


lemma find_dependencies_definitions_keys:
  "map fst (find_dependencies_definitions d version) = map fst d"
  by (induction d) auto

lemma find_in_value_not_table: "\<not> is_table v \<Longrightarrow> find_in_value v version = v"
  by (cases v) (auto simp: is_table_def)

lemma get_path_not_table: "\<not> is_table v \<Longrightarrow> get_path v (k # ks) = None"
  by (cases v) (auto simp: is_table_def)










subsection \<open>The list returned by get_sources\<close>



lemma lookup_append:
  "lookup (h @ hs) b =
     (if b < length h then lookup h b
      else if b - length h < length hs then Some (hs ! (b - length h)) else None)"
  by (auto simp: lookup_def nth_append)


lemma setdefault_present:
  "lookup h a = Some (ODict kvs) \<Longrightarrow> map_of kvs key = Some v \<Longrightarrow>
     setdefault h (VRef a) key dflt = Inr (v, h)"
  by (simp add: setdefault_def)


lemma refs_of_values_set: "set (refs_of_values vs) = {a. VRef a \<in> set vs}"
  by (induction vs rule: refs_of_values.induct) auto



text \<open>
  \<open>PyprojectBase.get_sources\<close> and \<open>Pyproject._get_pyproj_sources\<close> on the section
  of the adapter are the same function.
\<close>

lemma get_sources_delegates:
  "get_section h self = Inr (section, h1) \<Longrightarrow>
     get_sources h self = get_pyproj_sources h1 section"
  by (simp add: get_sources_def get_pyproj_sources_def)

lemma get_section_existing:
  assumes "lookup h (pyproject_data (pyproj self)) = Some (ODict rkvs)"
    and "map_of rkvs ''tool'' = Some (VRef t)"
    and "lookup h t = Some (ODict tkvs)"
    and "map_of tkvs (case self of PdmPyproject p \<Rightarrow> ''pdm'' | PoetryPyproject p \<Rightarrow> ''poetry'')
           = Some section"
  shows "get_section h self = Inr (section, h)"
  using assms by (cases self) (simp_all add: tool_section_def setdefault_present)




lemma field_lookup: "lookup h a = Some (ODict kvs) \<Longrightarrow> field h (VRef a) k = map_of kvs k"
  by (simp add: field_def)


















subsection \<open>The two defects in general\<close>

text \<open>
  In general: when the section's source list has no entry of the given name, the store
  after \<open>upsert_source\<close> is the store after \<open>_get_section\<close> followed by two new
  objects, the copy of the list and the new entry; no object of the document has changed.
\<close>

lemma upsert_source_absent_name:
  assumes "get_section h self = Inr (VRef a, h1)"
    and "lookup h1 a = Some (ODict kvs)"
    and "map_of kvs ''source'' = Some (VRef l)"
    and "lookup h1 l = Some (OList xs)"
    and "find_source (h1 @ [OList xs]) xs source_name = Inr None"
  shows "upsert_source h self source_name source_url dflt secondary =
           Inr (h1 @ [OList (xs @ [VRef (Suc (length h1))]),
                      ODict (source_config source_name source_url dflt secondary)])"
proof -
  have g: "get_pyproj_sources h1 (VRef a) = Inr (VRef (length h1), h1 @ [OList xs])"
    using assms(2,3,4) by (simp add: get_pyproj_sources_def setdefault_present iter_values_def alloc_def)
  have l: "lookup (h1 @ [OList xs]) (length h1) = Some (OList xs)"
    by (simp add: lookup_append)
  have it: "iter_values (h1 @ [OList xs]) (VRef (length h1)) = Inr xs"
    using l by (simp add: iter_values_def)
  have l': "lookup (h1 @ [OList xs] @ [ODict (source_config source_name source_url dflt secondary)])
      (length h1) = Some (OList xs)"
    by (simp add: lookup_def nth_append)
  have u: "upsert_pyproj_source (h1 @ [OList xs]) (VRef (length h1)) source_name source_url dflt secondary
      = Inr (h1 @ [OList (xs @ [VRef (Suc (length h1))]),
                   ODict (source_config source_name source_url dflt secondary)])"
    using it assms(5) l'
    by (simp add: upsert_pyproj_source_def alloc_def list_append_def list_update_append)
  show ?thesis using assms(1) g u by (simp add: upsert_source_def)
qed

text \<open>
  In general: on a section that is a table, \<open>delete_source\<close> never returns normally.
  It raises \<open>KeyError\<close> when the table is empty and \<open>TypeError\<close> otherwise,
  whatever the source list holds.
\<close>

lemma delete_source_never_deletes:
  assumes "get_section h self = Inr (VRef a, h1)"
    and "lookup h1 a = Some (ODict kvs)"
  shows "delete_source h self source_name =
           (if kvs = [] then Inl (KeyError (VStr source_name)) else Inl TypeError)"
proof (cases kvs)
  case Nil
  with assms show ?thesis
    by (simp add: delete_source_def delete_pyproj_source_def iter_values_def)
next
  case (Cons kv rest)
  with assms show ?thesis
    by (simp add: delete_source_def delete_pyproj_source_def iter_values_def getitem_def)
qed

section \<open>Properties of set_package_indexes\<close>



















end
